theory Spec2Isabelle
  imports Main "HOL-Library.Multiset" "HOL-Library.AList"
begin

section \<open>Data model\<close>

text \<open>
  The program is one Python class, \<^verbatim>\<open>OCRDataProcessor\<close>, in
  \<^verbatim>\<open>ocr_data_processor.py\<close>. Its values are strings, Python dicts and the
  JSON documents the provider sends back. A JSON document is a tree; an object keeps
  the items of the Python dict it was parsed into, in insertion order, with distinct
  keys. The program never computes with a number, so numbers are kept as integers.
\<close>

datatype json =
    JNull
  | JBool bool
  | JNum int
  | JStr string
  | JArr "json list"
  | JObj "(string \<times> json) list"

text \<open>
  Exceptions are values. \<open>BatchNotReadyException\<close> is the class the module declares;
  \<open>RetryError\<close> is what the retry decorator raises when its stop condition holds;
  \<open>KeyError\<close>, \<open>IndexError\<close> and \<open>TypeError\<close> are what subscripting raises.
  Every other exception class (transport failures, decoding failures) is
  \<open>OtherException\<close> with the name of its class.
\<close>

datatype error =
    BatchNotReadyException
  | RetryError
  | KeyError string
  | IndexError
  | TypeError
  | OtherException string

type_synonym 'a result = "error + 'a"

text \<open>The attributes \<^verbatim>\<open>__init__\<close> stores; \<open>api_key\<close> is
  \<^verbatim>\<open>os.getenv('OPENAI_API_KEY')\<close>, which is \<^verbatim>\<open>None\<close> when the variable is unset.\<close>

record processor =
  ocr_data :: "(string \<times> string) list"
  system_prompt :: string
  model :: string
  api_key :: "string option"

text \<open>One chat message, one request body and one row of the frame \<^verbatim>\<open>prepare_data\<close>
  returns (its columns after \<^verbatim>\<open>drop('ocr')\<close>). The key \<^verbatim>\<open>model\<close> of a body is the
  field \<open>body_model\<close>, since \<open>model\<close> names the attribute of the processor.\<close>

record message =
  role :: string
  content :: string

record body =
  body_model :: string
  messages :: "message list"

record request =
  custom_id :: string
  "method" :: string
  url :: string
  body :: body

section \<open>Request formatting\<close>

text \<open>
  \<^verbatim>\<open>prepare_data\<close> builds a frame with one row per item of \<^verbatim>\<open>self.ocr_data\<close>
  (\<^verbatim>\<open>from_dict(orient='index')\<close> followed by \<^verbatim>\<open>reset_index\<close>), names the
  key column \<^verbatim>\<open>custom_id\<close>, adds the constant columns \<^verbatim>\<open>method\<close> and
  \<^verbatim>\<open>url\<close>, computes \<^verbatim>\<open>body\<close> from the text of each row and drops the text.
\<close>

definition make_body :: "processor \<Rightarrow> string \<Rightarrow> body" where
  "make_body self x =
     \<lparr>body_model = model self,
      messages = [\<lparr>role = ''system'', content = system_prompt self\<rparr>,
                  \<lparr>role = ''user'', content = x\<rparr>]\<rparr>"

definition prepare_data :: "processor \<Rightarrow> request list" where
  "prepare_data self =
     map (\<lambda>(k, x). \<lparr>custom_id = k, method = ''POST'', url = ''/v1/chat/completions'',
                      body = make_body self x\<rparr>)
         (ocr_data self)"

section \<open>Result assembly\<close>

text \<open>
  Subscripting as Python does it on a parsed JSON value: \<^verbatim>\<open>x['k']\<close> is defined on
  a dict holding the key and raises \<^verbatim>\<open>KeyError\<close> on a dict without it and
  \<^verbatim>\<open>TypeError\<close> on anything else; \<^verbatim>\<open>x[0]\<close> is the first element of a
  list, the first character of a string, \<^verbatim>\<open>IndexError\<close> when either is empty,
  \<^verbatim>\<open>KeyError\<close> on a dict (its keys are strings) and \<^verbatim>\<open>TypeError\<close> otherwise.
\<close>

fun getitem :: "json \<Rightarrow> string \<Rightarrow> json result" where
  "getitem (JObj kvs) k = (case map_of kvs k of None \<Rightarrow> Inl (KeyError k) | Some v \<Rightarrow> Inr v)"
| "getitem _ k = Inl TypeError"

fun getitem0 :: "json \<Rightarrow> json result" where
  "getitem0 (JArr []) = Inl IndexError"
| "getitem0 (JArr (v # vs)) = Inr v"
| "getitem0 (JStr []) = Inl IndexError"
| "getitem0 (JStr (c # cs)) = Inr (JStr [c])"
| "getitem0 (JObj kvs) = Inl (KeyError ''0'')"
| "getitem0 _ = Inl TypeError"

definition and_then :: "'a result \<Rightarrow> ('a \<Rightarrow> 'b result) \<Rightarrow> 'b result" where
  "and_then r f = (case r of Inl e \<Rightarrow> Inl e | Inr x \<Rightarrow> f x)"

text \<open>The first lambda of \<^verbatim>\<open>process_responses\<close>:
  \<^verbatim>\<open>x['body']['choices'][0]['message']['content']\<close>.\<close>

definition message_content :: "json \<Rightarrow> json result" where
  "message_content x =
     and_then (and_then (and_then (and_then (getitem x ''body'')
       (\<lambda>b. getitem b ''choices'')) getitem0)
       (\<lambda>c. getitem c ''message'')) (\<lambda>m. getitem m ''content'')"

text \<open>
  \<^verbatim>\<open>json_repair.loads\<close> is a third-party function: it is a parameter \<open>loads\<close> of the
  model, from the text to the value it recovers or the exception it raises. It is
  only defined on strings; handed any other value it raises \<^verbatim>\<open>TypeError\<close>.
\<close>

definition repair_loads :: "(string \<Rightarrow> json result) \<Rightarrow> json \<Rightarrow> json result" where
  "repair_loads loads x = (case x of JStr s \<Rightarrow> loads s | _ \<Rightarrow> Inl TypeError)"

text \<open>\<^verbatim>\<open>Series.apply\<close>: the function is applied to the rows in order, and the first
  exception ends the whole call.\<close>

fun series_apply :: "('a \<Rightarrow> 'b result) \<Rightarrow> 'a list \<Rightarrow> 'b list result" where
  "series_apply f [] = Inr []"
| "series_apply f (x # xs) =
     (case f x of
        Inl e \<Rightarrow> Inl e
      | Inr y \<Rightarrow> (case series_apply f xs of Inl e \<Rightarrow> Inl e | Inr ys \<Rightarrow> Inr (y # ys)))"

text \<open>
  One line of the downloaded output file, after the JSON reader has decoded it: the two
  members the program reads, \<^verbatim>\<open>custom_id\<close> (the field \<open>line_custom_id\<close>; the
  provider writes it as a JSON string) and \<^verbatim>\<open>response\<close>.
\<close>

record output_line =
  line_custom_id :: string
  response :: json

text \<open>
  \<^verbatim>\<open>pd.read_json(output_file, lines=True)\<close> is called with its default
  \<^verbatim>\<open>dtype\<close>, so every column of texts goes through the reader's type inference:
  the whole column is cast to \<^verbatim>\<open>float64\<close>, and kept as it was when the cast raises
  on one of its values; a column of floats is then cast to \<^verbatim>\<open>int64\<close> and the
  integers are kept when every one of them compares equal to its float. A value of
  the \<^verbatim>\<open>custom_id\<close> column of the frame is therefore a text, an integer or a float.
\<close>

datatype 'f key = StrKey string | IntKey int | FloatKey 'f

text \<open>
  The casts themselves belong to Python and to numpy; they are parameters of the model,
  over a type \<open>'f\<close> of float values (with \<open>0.0\<close> and \<open>-0.0\<close> one value, as Python
  compares them). \<open>to_float64 s\<close> is \<^verbatim>\<open>float(s)\<close>, and \<open>None\<close> when that raises
  \<^verbatim>\<open>ValueError\<close>; \<open>to_int64 f\<close> is the integer the float is cast to when the two
  compare equal, and \<open>None\<close> when they do not; \<open>isnan f\<close> holds of the floats that are
  nan.
\<close>

record 'f casts =
  to_float64 :: "string \<Rightarrow> 'f option"
  to_int64 :: "'f \<Rightarrow> int option"
  isnan :: "'f \<Rightarrow> bool"

text \<open>
  This much of \<^verbatim>\<open>float\<close> is fixed: every text it accepts either has a digit or
  spells \<^verbatim>\<open>inf\<close>, \<^verbatim>\<open>infinity\<close> or \<^verbatim>\<open>nan\<close> in some mix of cases, which all have
  the letter n. A text with no digit, no letter n and only ASCII characters (a digit of
  another script is not ASCII) is rejected, whatever the parameter says.
\<close>

definition is_digit :: "char \<Rightarrow> bool" where
  "is_digit c = (c \<in> set ''0123456789'')"

definition may_be_number :: "string \<Rightarrow> bool" where
  "may_be_number s =
     list_ex (\<lambda>c. is_digit c \<or> c = CHR ''n'' \<or> c = CHR ''N'' \<or> 128 \<le> (of_char c :: nat)) s"

definition py_float :: "'f casts \<Rightarrow> string \<Rightarrow> 'f option" where
  "py_float np s = (if may_be_number s then to_float64 np s else None)"

text \<open>The type inference of one column of texts, and the frame: its \<^verbatim>\<open>custom_id\<close>
  column and its \<^verbatim>\<open>response\<close> column (whose values are dicts, which no cast
  accepts). The reader leaves a column without values alone; the program never reads
  one, since a frame without rows makes it raise.\<close>

definition try_convert_data :: "'f casts \<Rightarrow> string list \<Rightarrow> 'f key list" where
  "try_convert_data np col =
     (case those (map (py_float np) col) of
        None \<Rightarrow> map StrKey col
      | Some floats \<Rightarrow>
          (case those (map (to_int64 np) floats) of
             None \<Rightarrow> map FloatKey floats
           | Some ints \<Rightarrow> map IntKey ints))"

definition read_json :: "'f casts \<Rightarrow> output_line list \<Rightarrow> 'f key list \<times> json list" where
  "read_json np lines = (try_convert_data np (map line_custom_id lines), map response lines)"

text \<open>
  \<^verbatim>\<open>set_index('custom_id')['json'].to_dict()\<close> inserts the pairs into a Python dict
  in row order: a new key is appended, a key already present keeps its place and takes
  the new value. A float key that is nan equals no key, itself included, so it is
  always new.
\<close>

definition nan_key :: "'f casts \<Rightarrow> 'f key \<Rightarrow> bool" where
  "nan_key np k = (case k of FloatKey f \<Rightarrow> isnan np f | _ \<Rightarrow> False)"

definition to_dict :: "('k \<Rightarrow> bool) \<Rightarrow> ('k \<times> 'v) list \<Rightarrow> ('k \<times> 'v) list" where
  "to_dict never_equal kvs =
     foldl (\<lambda>d (k, v). if never_equal k then d @ [(k, v)] else AList.update k v d) [] kvs"

text \<open>
  \<^verbatim>\<open>process_responses\<close>. \<open>download\<close> stands for fetching the file content and
  writing it to disk; it raises or gives the lines of the file. A frame without rows
  has no \<^verbatim>\<open>response\<close> column, so the first subscript raises.
\<close>

definition process_responses ::
  "(string \<Rightarrow> output_line list result) \<Rightarrow> 'f casts \<Rightarrow> (string \<Rightarrow> json result) \<Rightarrow> string
     \<Rightarrow> ('f key \<times> json) list result" where
  "process_responses download np loads output_file_id =
     and_then (download output_file_id) (\<lambda>lines.
       case read_json np lines of (custom_id_col, response_col) \<Rightarrow>
         if response_col = [] then Inl (KeyError ''response'')
         else and_then (series_apply message_content response_col) (\<lambda>json_text.
              and_then (series_apply (repair_loads loads) json_text) (\<lambda>js.
                Inr (to_dict (nan_key np) (zip custom_id_col js)))))"

section \<open>Completion polling\<close>

text \<open>
  The body of \<^verbatim>\<open>wait_for_batch_completion\<close>, before the decorator: it takes what
  \<^verbatim>\<open>get_batch_details\<close> did (raised, or returned the decoded body), reads
  \<^verbatim>\<open>batch_details['status']\<close> and returns the details when the status is in the
  list \<^verbatim>\<open>['completed', 'failed']\<close>; otherwise it raises
  \<^verbatim>\<open>BatchNotReadyException\<close>.
\<close>

definition wait_for_batch_completion_body :: "json result \<Rightarrow> json result" where
  "wait_for_batch_completion_body r =
     and_then r (\<lambda>batch_details.
       and_then (getitem batch_details ''status'') (\<lambda>status.
         if status \<in> set [JStr ''completed'', JStr ''failed'']
         then Inr batch_details
         else Inl BatchNotReadyException))"

text \<open>
  The three arguments of the \<^verbatim>\<open>@retry\<close> decorator.
  \<^verbatim>\<open>wait_exponential(multiplier=1, max=1800)\<close> waits
  \<^verbatim>\<open>max(max(0, min), min(multiplier * 2 ** (attempt_number - 1), max))\<close> seconds
  with \<^verbatim>\<open>min = 0\<close>; attempts are numbered from 1, so the exponent is never
  negative.
  \<^verbatim>\<open>stop_after_delay(86400)\<close> holds when the time from the start of the first
  attempt to the outcome of the last one is at least 86400 seconds.
  \<^verbatim>\<open>retry_if_exception_type(BatchNotReadyException)\<close> holds when the attempt
  raised that exception.
\<close>

definition wait_exponential :: "nat \<Rightarrow> nat" where
  "wait_exponential attempt = max (max 0 0) (min (1 * 2 ^ (attempt - 1)) 1800)"

definition stop_after_delay :: "nat \<Rightarrow> bool" where
  "stop_after_delay seconds = (86400 \<le> seconds)"

definition retry_if_exception_type :: "json result \<Rightarrow> bool" where
  "retry_if_exception_type outcome =
     (case outcome of Inl e \<Rightarrow> e = BatchNotReadyException | Inr _ \<Rightarrow> False)"

text \<open>What the decorator knows when it stops: the number of the last attempt and the
  seconds from the start of the first attempt to the outcome of the last.\<close>

record retry_state =
  attempt_number :: nat
  seconds_since_start :: nat

text \<open>
  The decorator's loop, on a simulated clock that counts whole seconds from the start
  of the first attempt. The world is a function \<open>get_batch_details\<close>: at attempt \<open>n\<close>
  it gives what the status query did and how many seconds passed between the start of
  the attempt and its outcome. \<open>now\<close> is the clock when attempt \<open>n\<close> starts.
  An outcome that is not to be retried is handed to the caller as it is (a value is
  returned, an exception is raised again); an outcome to be retried raises
  \<^verbatim>\<open>RetryError\<close> when the stop condition holds, and otherwise the loop sleeps for
  the computed wait and makes the next attempt.
\<close>

function retrying :: "(nat \<Rightarrow> json result \<times> nat) \<Rightarrow> nat \<Rightarrow> nat \<Rightarrow> json result \<times> retry_state" where
  "retrying get_batch_details n now =
     (let outcome = wait_for_batch_completion_body (fst (get_batch_details n));
          elapsed = now + snd (get_batch_details n);
          state = \<lparr>attempt_number = n, seconds_since_start = elapsed\<rparr>
      in if \<not> retry_if_exception_type outcome then (outcome, state)
         else if stop_after_delay elapsed then (Inl RetryError, state)
         else retrying get_batch_details (Suc n) (elapsed + wait_exponential n))"
  by pat_completeness auto
termination
proof (relation "measure (\<lambda>(g, n, now). 86400 - now)")
  show "wf (measure (\<lambda>(g, n, now). 86400 - now))" by simp
next
  fix get_batch_details :: "nat \<Rightarrow> json result \<times> nat" and n now :: nat
    and outcome elapsed and state :: retry_state
  assume "elapsed = now + snd (get_batch_details n)" and "\<not> stop_after_delay elapsed"
  moreover have "0 < wait_exponential n" by (simp add: wait_exponential_def)
  ultimately show "((get_batch_details, Suc n, elapsed + wait_exponential n),
                    (get_batch_details, n, now)) \<in> measure (\<lambda>(g, n, now). 86400 - now)"
    by (simp add: stop_after_delay_def)
qed

declare retrying.simps [simp del]

definition wait_for_batch_completion :: "(nat \<Rightarrow> json result \<times> nat) \<Rightarrow> json result \<times> retry_state" where
  "wait_for_batch_completion get_batch_details = retrying get_batch_details 1 0"

section \<open>Batch submission\<close>

text \<open>
  \<^verbatim>\<open>_create_batch\<close> (named \<open>create_batch_request\<close> here, an Isabelle name cannot
  start with an underscore). \<open>post\<close> stands for \<^verbatim>\<open>requests.post\<close>: it raises or
  gives the response, whatever its status code; \<open>json_of\<close> stands for
  \<^verbatim>\<open>response.json()\<close>, the decoding of the body, which raises on a body that is not
  JSON. The function reads \<^verbatim>\<open>response.status_code\<close> for the log line only.
  An f-string prints \<^verbatim>\<open>None\<close> as the text \<open>None\<close>.
\<close>

record http_response =
  status_code :: nat
  response_text :: string

definition bearer :: "string option \<Rightarrow> string" where
  "bearer key = ''Bearer '' @ (case key of None \<Rightarrow> ''None'' | Some k \<Rightarrow> k)"

definition create_batch_request ::
  "(string \<Rightarrow> (string \<times> string) list \<Rightarrow> json \<Rightarrow> http_response result)
     \<Rightarrow> (string \<Rightarrow> json result) \<Rightarrow> processor \<Rightarrow> string \<Rightarrow> json result" where
  "create_batch_request post json_of self input_file_id =
     (let url = ''https://api.openai.com/v1/batches'';
          headers = [(''Authorization'', bearer (api_key self)),
                     (''Content-Type'', ''application/json'')];
          data = JObj [(''input_file_id'', JStr input_file_id),
                       (''endpoint'', JStr ''/v1/chat/completions''),
                       (''completion_window'', JStr ''24h'')]
      in and_then (post url headers data) (\<lambda>response. json_of (response_text response)))"

section \<open>Sample inputs\<close>

text \<open>
  Concrete inputs on which the properties below are evaluated: a response of the shape
  the provider sends, with a given message content; a parser that recovers four texts
  and gives the empty string for any other; a processor with two records; an output
  file of three lines, two of them with the same id, and one of two lines; a processor
  and two output files whose ids are all digits; a status
  query that never becomes ready, one that reports a failed batch at the second
  attempt and one that loses the connection at the second attempt; and a
  batch-creation endpoint that answers 400.
\<close>

definition chat_response :: "string \<Rightarrow> json" where
  "chat_response s =
     JObj [(''body'', JObj [(''choices'',
       JArr [JObj [(''message'', JObj [(''content'', JStr s)])]])])]"

definition sample_loads :: "string \<Rightarrow> json result" where
  \<open>sample_loads s =
     (if s = ''{"x":1}'' \<or> s = ''{x:1,}'' then Inr (JObj [(''x'', JNum 1)])
      else if s = ''{"x":2}'' then Inr (JObj [(''x'', JNum 2)])
      else if s = ''{"x":3}'' then Inr (JObj [(''x'', JNum 3)])
      else Inr (JStr ''''))\<close>

definition sample_processor :: processor where
  "sample_processor =
     \<lparr>ocr_data = [(''id1'', ''sample text''), (''id2'', ''other text'')],
      system_prompt = ''P'', model = ''m'', api_key = None\<rparr>"

definition sample_output :: "string \<Rightarrow> output_line list result" where
  \<open>sample_output output_file_id =
     Inr [\<lparr>line_custom_id = ''id2'', response = chat_response ''{"x":1}''\<rparr>,
          \<lparr>line_custom_id = ''id2'', response = chat_response ''{"x":2}''\<rparr>,
          \<lparr>line_custom_id = ''id1'', response = chat_response ''{x:1,}''\<rparr>]\<close>

definition two_lines :: "string \<Rightarrow> output_line list result" where
  \<open>two_lines output_file_id =
     Inr [\<lparr>line_custom_id = ''a'', response = chat_response ''{"x":1}''\<rparr>,
          \<lparr>line_custom_id = ''b'', response = chat_response ''{x:1,}''\<rparr>]\<close>

text \<open>Casts that read a text of plain decimal digits as Python does, as the whole
  number it writes; no other text is needed below.\<close>

definition decimal :: "string \<Rightarrow> int" where
  "decimal s = foldl (\<lambda>n c. 10 * n + (of_char c - 48)) 0 s"

definition digit_casts :: "int casts" where
  "digit_casts =
     \<lparr>to_float64 = (\<lambda>s. if s \<noteq> [] \<and> list_all is_digit s then Some (decimal s) else None),
      to_int64 = Some,
      isnan = (\<lambda>f. False)\<rparr>"

definition numeric_processor :: processor where
  "numeric_processor =
     \<lparr>ocr_data = [(''1'', ''first text''), (''01'', ''second text'')],
      system_prompt = ''P'', model = ''m'', api_key = None\<rparr>"

definition numeric_lines :: "output_line list" where
  \<open>numeric_lines =
     [\<lparr>line_custom_id = ''1'', response = chat_response ''{"x":1}''\<rparr>,
      \<lparr>line_custom_id = ''01'', response = chat_response ''{"x":2}''\<rparr>]\<close>

definition numeric_output :: "string \<Rightarrow> output_line list result" where
  "numeric_output output_file_id = Inr numeric_lines"

definition fives_lines :: "output_line list" where
  \<open>fives_lines =
     [\<lparr>line_custom_id = ''5'', response = chat_response ''{"x":1}''\<rparr>,
      \<lparr>line_custom_id = ''5'', response = chat_response ''{"x":2}''\<rparr>,
      \<lparr>line_custom_id = ''05'', response = chat_response ''{"x":3}''\<rparr>]\<close>

definition fives_output :: "string \<Rightarrow> output_line list result" where
  "fives_output output_file_id = Inr fives_lines"

text \<open>What the provider writes for a request it refused: a body with an error and no
  choices. Two output files hold such a line.\<close>

definition refused :: json where
  "refused =
     JObj [(''status_code'', JNum 400),
           (''body'', JObj [(''error'', JObj [(''message'', JStr ''bad request'')])])]"

definition refused_lines :: "output_line list" where
  \<open>refused_lines =
     [\<lparr>line_custom_id = ''id1'', response = chat_response ''{"x":1}''\<rparr>,
      \<lparr>line_custom_id = ''id2'', response = refused\<rparr>]\<close>

definition refused_output :: "string \<Rightarrow> output_line list result" where
  "refused_output output_file_id = Inr refused_lines"

definition refused_twice_lines :: "output_line list" where
  \<open>refused_twice_lines =
     [\<lparr>line_custom_id = ''id2'', response = chat_response ''{"x":1}''\<rparr>,
      \<lparr>line_custom_id = ''id2'', response = chat_response ''{"x":2}''\<rparr>,
      \<lparr>line_custom_id = ''id1'', response = refused\<rparr>]\<close>

definition refused_twice_output :: "string \<Rightarrow> output_line list result" where
  "refused_twice_output output_file_id = Inr refused_twice_lines"

definition in_progress :: json where
  "in_progress = JObj [(''id'', JStr ''batch_1''), (''status'', JStr ''in_progress'')]"

definition never_ready :: "nat \<Rightarrow> json result \<times> nat" where
  "never_ready n = (Inr in_progress, 0)"

definition failed_batch :: json where
  "failed_batch = JObj [(''id'', JStr ''batch_1''), (''status'', JStr ''failed'')]"

definition fails_second :: "nat \<Rightarrow> json result \<times> nat" where
  "fails_second n = (if n = 1 then (Inr in_progress, 2) else (Inr failed_batch, 3))"

definition connection_lost :: "nat \<Rightarrow> json result \<times> nat" where
  "connection_lost n =
     (if n = 1 then (Inr in_progress, 2) else (Inl (OtherException ''ConnectionError''), 3))"

definition rejecting_post :: "string \<Rightarrow> (string \<times> string) list \<Rightarrow> json \<Rightarrow> http_response result" where
  \<open>rejecting_post target headers payload =
     Inr \<lparr>status_code = 400, response_text = ''{"error":"bad"}''\<rparr>\<close>

definition sample_json_of :: "string \<Rightarrow> json result" where
  \<open>sample_json_of s =
     (if s = ''{"error":"bad"}'' then Inr (JObj [(''error'', JStr ''bad'')])
      else Inl (OtherException ''JSONDecodeError''))\<close>

section \<open>Properties of request formatting\<close>

lemma custom_id_prepare_data: "map custom_id (prepare_data self) = map fst (ocr_data self)"
  by (simp add: prepare_data_def case_prod_unfold comp_def)

text \<open>
  Claim C7. For the input mapping \<open>{"id1": "sample text"}\<close>, the prompt \<open>"P"\<close> and the
  model \<open>"m"\<close>, \<open>prepare_data\<close> returns exactly one request: custom_id \<open>"id1"\<close>, method
  \<open>"POST"\<close>, url \<open>"/v1/chat/completions"\<close>, and a body with model \<open>"m"\<close> and the two
  messages system \<open>"P"\<close> and user \<open>"sample text"\<close>, in that order.
\<close>

theorem prepare_data_scenario:
  "prepare_data \<lparr>ocr_data = [(''id1'', ''sample text'')], system_prompt = ''P'',
                  model = ''m'', api_key = key\<rparr>
   = [\<lparr>custom_id = ''id1'', method = ''POST'', url = ''/v1/chat/completions'',
       body = \<lparr>body_model = ''m'',
               messages = [\<lparr>role = ''system'', content = ''P''\<rparr>,
                           \<lparr>role = ''user'', content = ''sample text''\<rparr>]\<rparr>\<rparr>]"
  by (simp add: prepare_data_def make_body_def)

section \<open>Properties of result assembly\<close>

lemma and_then_Inr_iff: "and_then r f = Inr y \<longleftrightarrow> (\<exists>x. r = Inr x \<and> f x = Inr y)"
  by (cases r) (simp_all add: and_then_def)

lemma series_apply_length: "series_apply f xs = Inr ys \<Longrightarrow> length ys = length xs"
  by (induction xs arbitrary: ys) (auto split: sum.splits)

lemma series_apply_nth:
  "series_apply f xs = Inr ys \<Longrightarrow> i < length xs \<Longrightarrow> f (xs ! i) = Inr (ys ! i)"
proof (induction xs arbitrary: ys i)
  case Nil
  then show ?case by simp
next
  case (Cons x xs)
  then show ?case by (cases i) (auto split: sum.splits)
qed

lemma series_apply_total:
  "(\<And>x. x \<in> set xs \<Longrightarrow> \<exists>y. f x = Inr y) \<Longrightarrow> \<exists>ys. series_apply f xs = Inr ys"
proof (induction xs)
  case Nil
  then show ?case by simp
next
  case (Cons x xs)
  then obtain y ys where "f x = Inr y" "series_apply f xs = Inr ys"
    by (meson list.set_intros)
  then show ?case by simp
qed

lemma map_of_foldl_update:
  "map_of (foldl (\<lambda>d (k, v). AList.update k v d) d kvs) = map_of d ++ map_of (rev kvs)"
proof (induction kvs arbitrary: d)
  case Nil
  then show ?case by simp
next
  case (Cons kv kvs)
  obtain k v where kv: "kv = (k, v)" by (cases kv)
  show ?case
    by (rule ext) (simp add: kv Cons.IH update_conv' map_add_def split: option.splits)
qed

lemma distinct_foldl_update:
  "distinct (map fst d) \<Longrightarrow> distinct (map fst (foldl (\<lambda>d (k, v). AList.update k v d) d kvs))"
  by (induction kvs arbitrary: d) (auto simp: distinct_update)


lemma to_dict_plain:
  "(\<And>kv. kv \<in> set kvs \<Longrightarrow> \<not> never_equal (fst kv)) \<Longrightarrow>
   foldl (\<lambda>d (k, v). if never_equal k then d @ [(k, v)] else AList.update k v d) d kvs
   = foldl (\<lambda>d (k, v). AList.update k v d) d kvs"
proof (induction kvs arbitrary: d)
  case Nil
  then show ?case by simp
next
  case (Cons kv kvs)
  obtain k v where kv: "kv = (k, v)" by (cases kv)
  from Cons.prems [of kv] kv have "\<not> never_equal k" by simp
  moreover have "foldl (\<lambda>d (k, v). if never_equal k then d @ [(k, v)] else AList.update k v d) d' kvs
      = foldl (\<lambda>d (k, v). AList.update k v d) d' kvs" for d'
    by (rule Cons.IH) (simp add: Cons.prems)
  ultimately show ?case by (simp add: kv)
qed

lemma map_of_to_dict:
  "(\<And>kv. kv \<in> set kvs \<Longrightarrow> \<not> never_equal (fst kv)) \<Longrightarrow>
   map_of (to_dict never_equal kvs) = map_of (rev kvs)"
  by (simp add: to_dict_def to_dict_plain map_of_foldl_update)

lemma distinct_to_dict:
  "(\<And>kv. kv \<in> set kvs \<Longrightarrow> \<not> never_equal (fst kv)) \<Longrightarrow>
   distinct (map fst (to_dict never_equal kvs))"
  by (simp add: to_dict_def to_dict_plain distinct_foldl_update)

lemma keys_to_dict:
  assumes "\<And>kv. kv \<in> set kvs \<Longrightarrow> \<not> never_equal (fst kv)"
  shows "set (map fst (to_dict never_equal kvs)) = set (map fst kvs)"
proof -
  have "dom (map_of (to_dict never_equal kvs)) = dom (map_of (rev kvs))"
    using assms by (simp add: map_of_to_dict)
  then show ?thesis
    by (simp add: dom_map_of_conv_image_fst)
qed

lemma those_None: "x \<in> set xs \<Longrightarrow> f x = None \<Longrightarrow> those (map f xs) = None"
  by (induction xs) (auto split: option.splits)

lemma try_convert_data_texts:
  "s \<in> set col \<Longrightarrow> py_float np s = None \<Longrightarrow> try_convert_data np col = map StrKey col"
  by (simp add: try_convert_data_def those_None)

lemma nan_key_StrKey: "\<not> nan_key np (StrKey s)"
  by (simp add: nan_key_def)

lemma text_keys_not_nan:
  "length js = length col \<Longrightarrow> kv \<in> set (zip (map StrKey col) js) \<Longrightarrow> \<not> nan_key np (fst kv)"
  by (cases kv) (auto simp: nan_key_def dest!: set_zip_leftD)

text \<open>When one id of the file is not a number to \<open>float\<close>, the frame keeps the ids as
  they are, and the function is the one on texts.\<close>

lemma process_responses_texts:
  assumes "download fid = Inr lines"
    and "s \<in> set (map line_custom_id lines)" and "py_float np s = None"
  shows "process_responses download np loads fid =
     and_then (series_apply message_content (map response lines)) (\<lambda>json_text.
       and_then (series_apply (repair_loads loads) json_text) (\<lambda>js.
         Inr (to_dict (nan_key np) (zip (map StrKey (map line_custom_id lines)) js))))"
proof -
  from assms(2) have "lines \<noteq> []" by auto
  with assms show ?thesis
    by (simp add: process_responses_def and_then_def read_json_def try_convert_data_texts)
qed

lemma process_responses_Inr:
  assumes "download fid = Inr lines"
    and "s \<in> set (map line_custom_id lines)" and "py_float np s = None"
    and "process_responses download np loads fid = Inr result"
  shows "\<exists>json_text js.
    series_apply message_content (map response lines) = Inr json_text \<and>
    series_apply (repair_loads loads) json_text = Inr js \<and>
    result = to_dict (nan_key np) (zip (map StrKey (map line_custom_id lines)) js) \<and>
    length json_text = length lines \<and> length js = length lines"
proof -
  from assms(4) have "and_then (series_apply message_content (map response lines)) (\<lambda>json_text.
       and_then (series_apply (repair_loads loads) json_text) (\<lambda>js.
         Inr (to_dict (nan_key np) (zip (map StrKey (map line_custom_id lines)) js))))
       = Inr result"
    by (simp only: process_responses_texts [where download = download, OF assms(1-3)])
  from this [unfolded and_then_Inr_iff] obtain json_text js where
    jt: "series_apply message_content (map response lines) = Inr json_text"
    and js: "series_apply (repair_loads loads) json_text = Inr js"
    and res: "result = to_dict (nan_key np) (zip (map StrKey (map line_custom_id lines)) js)"
    by auto
  have l1: "length json_text = length lines" using series_apply_length [OF jt] by simp
  have l2: "length js = length json_text" using series_apply_length [OF js] .
  from jt js res l1 l2 show ?thesis by simp
qed

lemma process_responses_total:
  assumes "download fid = Inr lines"
    and "s \<in> set (map line_custom_id lines)" and "py_float np s = None"
    and "\<And>r. r \<in> set lines \<Longrightarrow>
           \<exists>s v. message_content (response r) = Inr (JStr s) \<and> loads s = Inr v"
  shows "\<exists>result. process_responses download np loads fid = Inr result"
proof -
  have "\<exists>y. message_content x = Inr y" if "x \<in> set (map response lines)" for x
    using that assms(4) by auto
  then obtain json_text where
    jt: "series_apply message_content (map response lines) = Inr json_text"
    using series_apply_total [of "map response lines" message_content] by blast
  have len: "length json_text = length lines" using series_apply_length [OF jt] by simp
  have "\<exists>y. repair_loads loads x = Inr y" if "x \<in> set json_text" for x
  proof -
    from that len obtain i where i: "i < length lines" "x = json_text ! i"
      by (metis in_set_conv_nth)
    from series_apply_nth [OF jt, of i] i
    have c: "message_content (response (lines ! i)) = Inr x" by simp
    from assms(4) [of "lines ! i"] i(1) obtain s v where
      "message_content (response (lines ! i)) = Inr (JStr s)" "loads s = Inr v"
      by auto
    with c show ?thesis by (auto simp: repair_loads_def)
  qed
  then obtain js where js: "series_apply (repair_loads loads) json_text = Inr js"
    using series_apply_total [of json_text "repair_loads loads"] by blast
  from jt js show ?thesis
    by (simp add: process_responses_texts [where download = download, OF assms(1-3)] and_then_def)
qed

lemma process_responses_keys:
  assumes "download fid = Inr lines"
    and "s \<in> set (map line_custom_id lines)" and "py_float np s = None"
    and "process_responses download np loads fid = Inr result"
  shows "set (map fst result) = StrKey ` set (map line_custom_id lines)"
    and "distinct (map fst result)"
proof -
  from process_responses_Inr [where download = download, OF assms] obtain js where
    res: "result = to_dict (nan_key np) (zip (map StrKey (map line_custom_id lines)) js)" and
    len: "length js = length lines"
    by blast
  let ?kvs = "zip (map StrKey (map line_custom_id lines)) js"
  have plain: "\<not> nan_key np (fst kv)" if "kv \<in> set ?kvs" for kv
    using text_keys_not_nan [of js "map line_custom_id lines" kv np] len that by simp
  from len have eq: "map fst ?kvs = map StrKey (map line_custom_id lines)" by simp
  have "set (map fst ?kvs) = set (map StrKey (map line_custom_id lines))"
    by (simp only: eq)
  also have "\<dots> = StrKey ` set (map line_custom_id lines)" by (rule set_map)
  finally have k: "set (map fst ?kvs) = StrKey ` set (map line_custom_id lines)" .
  have "set (map fst (to_dict (nan_key np) ?kvs)) = set (map fst ?kvs)"
    by (rule keys_to_dict) (rule plain)
  with k show "set (map fst result) = StrKey ` set (map line_custom_id lines)"
    by (simp only: res)
  have "distinct (map fst (to_dict (nan_key np) ?kvs))"
    by (rule distinct_to_dict) (rule plain)
  then show "distinct (map fst result)" by (simp only: res)
qed

lemma map_of_rev_last:
  "i < length kvs \<Longrightarrow> fst (kvs ! i) = k \<Longrightarrow>
   (\<And>j. i < j \<Longrightarrow> j < length kvs \<Longrightarrow> fst (kvs ! j) \<noteq> k) \<Longrightarrow>
   map_of (rev kvs) k = Some (snd (kvs ! i))"
proof (induction kvs rule: rev_induct)
  case Nil
  then show ?case by simp
next
  case (snoc x xs)
  show ?case
  proof (cases "i = length xs")
    case True
    with snoc.prems(2) show ?thesis by (cases x) auto
  next
    case False
    with snoc.prems(1) have i: "i < length xs" by simp
    have "fst ((xs @ [x]) ! length xs) \<noteq> k"
      using snoc.prems(3) [of "length xs"] i by simp
    then have x: "fst x \<noteq> k" by simp
    have "map_of (rev xs) k = Some (snd (xs ! i))"
    proof (rule snoc.IH [OF i])
      show "fst (xs ! i) = k" using snoc.prems(2) i by (simp add: nth_append)
    next
      fix j assume "i < j" "j < length xs"
      then show "fst (xs ! j) \<noteq> k"
        using snoc.prems(3) [of j] by (simp add: nth_append)
    qed
    with x i show ?thesis by (cases x) (auto simp: nth_append)
  qed
qed

lemma key_occurs_once:
  "distinct (map fst al) \<Longrightarrow> k \<in> set (map fst al) \<Longrightarrow>
   length (filter (\<lambda>kv. fst kv = k) al) = 1"
proof (induction al)
  case Nil
  then show ?case by simp
next
  case (Cons a al)
  show ?case
  proof (cases "fst a = k")
    case True
    from Cons.prems(1) have "fst a \<notin> fst ` set al" by simp
    with True have "\<forall>x \<in> set al. fst x \<noteq> k" by blast
    then have "filter (\<lambda>kv. fst kv = k) al = []" by (simp add: filter_empty_conv)
    with True show ?thesis by simp
  next
    case False
    with Cons show ?thesis by auto
  qed
qed

lemma message_content_chat_response: "message_content (chat_response s) = Inr (JStr s)"
  by (simp add: message_content_def chat_response_def and_then_def)

lemma digit_casts_float:
  "py_float digit_casts ''1'' = Some 1" "py_float digit_casts ''01'' = Some 1"
  "py_float digit_casts ''5'' = Some 5" "py_float digit_casts ''05'' = Some 5"
  "py_float digit_casts ''id1'' = None"
  by (simp_all add: py_float_def may_be_number_def is_digit_def digit_casts_def decimal_def)

lemma py_float_a: "py_float np ''a'' = None"
  by (simp add: py_float_def may_be_number_def is_digit_def)

lemma sample_loads_values:
  \<open>sample_loads ''{"x":1}'' = Inr (JObj [(''x'', JNum 1)])\<close>
  \<open>sample_loads ''{"x":2}'' = Inr (JObj [(''x'', JNum 2)])\<close>
  \<open>sample_loads ''{"x":3}'' = Inr (JObj [(''x'', JNum 3)])\<close>
  \<open>sample_loads ''{x:1,}'' = Inr (JObj [(''x'', JNum 1)])\<close>
  by (simp_all add: sample_loads_def)

lemma numeric_ids: "try_convert_data digit_casts [''1'', ''01''] = [IntKey 1, IntKey 1]"
  by (simp add: try_convert_data_def digit_casts_float) (simp add: digit_casts_def)

lemma fives_ids: "try_convert_data digit_casts [''5'', ''5'', ''05''] = [IntKey 5, IntKey 5, IntKey 5]"
  by (simp add: try_convert_data_def digit_casts_float) (simp add: digit_casts_def)

lemma nan_key_digit_casts: "nan_key digit_casts k = False"
  by (simp add: nan_key_def digit_casts_def split: key.splits)

lemma numeric_output_run:
  "process_responses numeric_output digit_casts sample_loads ''file-3''
     = Inr [(IntKey 1, JObj [(''x'', JNum 2)])]"
  by (simp add: process_responses_def numeric_output_def numeric_lines_def read_json_def
        numeric_ids and_then_def message_content_chat_response repair_loads_def
        sample_loads_values to_dict_def nan_key_digit_casts)

lemma fives_output_run:
  "process_responses fives_output digit_casts sample_loads ''file-4''
     = Inr [(IntKey 5, JObj [(''x'', JNum 3)])]"
  by (simp add: process_responses_def fives_output_def fives_lines_def read_json_def
        fives_ids and_then_def message_content_chat_response repair_loads_def
        sample_loads_values to_dict_def nan_key_digit_casts)

lemma last_line_wins_if_returned:
  fixes np :: "'f casts"
  assumes "download fid = Inr lines"
    and "q \<in> set (map line_custom_id lines)" and "py_float np q = None"
    and "process_responses download np loads fid = Inr result"
    and "i < length lines" and "line_custom_id (lines ! i) = k"
    and "\<And>j. i < j \<Longrightarrow> j < length lines \<Longrightarrow> line_custom_id (lines ! j) \<noteq> k"
  shows "\<exists>s v. message_content (response (lines ! i)) = Inr (JStr s) \<and> loads s = Inr v
             \<and> map_of result (StrKey k) = Some v
             \<and> length (filter (\<lambda>kv. fst kv = StrKey k) result) = 1"
proof -
  from process_responses_Inr [where download = download, OF assms(1-4)]
  obtain json_text js where
    jt: "series_apply message_content (map response lines) = Inr json_text" and
    js: "series_apply (repair_loads loads) json_text = Inr js" and
    res: "result = to_dict (nan_key np) (zip (map StrKey (map line_custom_id lines)) js)" and
    len: "length json_text = length lines" "length js = length lines"
    by blast
  have c: "message_content (response (lines ! i)) = Inr (json_text ! i)"
    using series_apply_nth [OF jt, of i] assms(5) by simp
  have l: "repair_loads loads (json_text ! i) = Inr (js ! i)"
    using series_apply_nth [OF js, of i] assms(5) len by simp
  then obtain s where s: "json_text ! i = JStr s" "loads s = Inr (js ! i)"
    by (auto simp: repair_loads_def split: json.splits)
  let ?kvs = "zip (map (StrKey :: string \<Rightarrow> 'f key) (map line_custom_id lines)) js"
  have plain: "\<not> nan_key np (fst kv)" if "kv \<in> set ?kvs" for kv
    using text_keys_not_nan [of js "map line_custom_id lines" kv np] len that by simp
  have "map_of (rev ?kvs) (StrKey k) = Some (snd (?kvs ! i))"
  proof (rule map_of_rev_last)
    show "i < length ?kvs" using assms(5) len by simp
    show "fst (?kvs ! i) = StrKey k" using assms(5,6) len by simp
    fix j assume "i < j" "j < length ?kvs"
    then show "fst (?kvs ! j) \<noteq> StrKey k" using assms(7) [of j] len by simp
  qed
  moreover have "map_of (to_dict (nan_key np) ?kvs) = map_of (rev ?kvs)"
    by (rule map_of_to_dict) (rule plain)
  ultimately have m: "map_of result (StrKey k) = Some (js ! i)"
    using assms(5) len by (simp add: res)
  have "distinct (map fst (to_dict (nan_key np) ?kvs))"
    by (rule distinct_to_dict) (rule plain)
  then have dist: "distinct (map fst result)" by (simp only: res)
  have "StrKey k \<in> set (map fst result)"
    using m by (metis map_of_eq_None_iff option.distinct(1) set_map)
  with dist have "length (filter (\<lambda>kv. fst kv = StrKey k) result) = 1"
    by (rule key_occurs_once)
  with c s m show ?thesis by auto
qed

lemma sample_ids:
  "try_convert_data digit_casts [''id2'', ''id2'', ''id1'']
     = [StrKey ''id2'', StrKey ''id2'', StrKey ''id1'']"
  using try_convert_data_texts [of "''id1''" "[''id2'', ''id2'', ''id1'']" digit_casts]
  by (simp add: digit_casts_float)

lemma sample_output_run:
  \<open>process_responses sample_output digit_casts sample_loads ''file-1''
     = Inr [(StrKey ''id2'', JObj [(''x'', JNum 2)]), (StrKey ''id1'', JObj [(''x'', JNum 1)])]\<close>
  by (simp add: process_responses_def sample_output_def read_json_def sample_ids and_then_def
        message_content_chat_response repair_loads_def sample_loads_values to_dict_def
        nan_key_digit_casts)

lemma two_ids:
  "try_convert_data digit_casts [''a'', ''b''] = [StrKey ''a'', StrKey ''b'']"
  using try_convert_data_texts [of "''a''" "[''a'', ''b'']" digit_casts]
  by (simp add: py_float_a)

lemma two_lines_run:
  \<open>process_responses two_lines digit_casts sample_loads ''file-2''
     = Inr [(StrKey ''a'', JObj [(''x'', JNum 1)]), (StrKey ''b'', JObj [(''x'', JNum 1)])]\<close>
  by (simp add: process_responses_def two_lines_def read_json_def two_ids and_then_def
        message_content_chat_response repair_loads_def sample_loads_values to_dict_def
        nan_key_digit_casts)

lemma line_ok:
  "loads s = Inr v \<Longrightarrow>
   \<exists>s' v'. message_content (response \<lparr>line_custom_id = c, response = chat_response s\<rparr>)
              = Inr (JStr s') \<and> loads s' = Inr v'"
  by (simp add: message_content_chat_response)

lemma sample_output_lines:
  assumes \<open>sample_output fid = Inr lines\<close> and \<open>r \<in> set lines\<close>
  shows \<open>\<exists>s v. message_content (response r) = Inr (JStr s) \<and> sample_loads s = Inr v\<close>
proof -
  from assms have
    \<open>r = \<lparr>line_custom_id = ''id2'', response = chat_response ''{"x":1}''\<rparr>
     \<or> r = \<lparr>line_custom_id = ''id2'', response = chat_response ''{"x":2}''\<rparr>
     \<or> r = \<lparr>line_custom_id = ''id1'', response = chat_response ''{x:1,}''\<rparr>\<close>
    by (auto simp only: sample_output_def sum.inject list.set insert_iff empty_iff)
  then show ?thesis
  proof (elim disjE)
    assume \<open>r = \<lparr>line_custom_id = ''id2'', response = chat_response ''{"x":1}''\<rparr>\<close>
    then show ?thesis by (simp only:) (rule line_ok, rule sample_loads_values)
  next
    assume \<open>r = \<lparr>line_custom_id = ''id2'', response = chat_response ''{"x":2}''\<rparr>\<close>
    then show ?thesis by (simp only:) (rule line_ok, rule sample_loads_values)
  next
    assume \<open>r = \<lparr>line_custom_id = ''id1'', response = chat_response ''{x:1,}''\<rparr>\<close>
    then show ?thesis by (simp only:) (rule line_ok, rule sample_loads_values)
  qed
qed

lemma message_content_refused: "message_content refused = Inl (KeyError ''choices'')"
  by (simp add: message_content_def refused_def and_then_def)

lemma refused_output_run:
  "process_responses refused_output digit_casts sample_loads ''file-5'' = Inl (KeyError ''choices'')"
  by (simp add: process_responses_def refused_output_def refused_lines_def read_json_def
        and_then_def message_content_chat_response message_content_refused)

lemma refused_twice_output_run:
  "process_responses refused_twice_output digit_casts sample_loads ''file-6''
     = Inl (KeyError ''choices'')"
  by (simp add: process_responses_def refused_twice_output_def refused_twice_lines_def
        read_json_def and_then_def message_content_chat_response message_content_refused)

text \<open>
  Claim C6. For every non-empty input mapping (a Python dict, so its keys are distinct),
  \<open>prepare_data\<close> produces exactly as many requests as there are input records, and
  the multiset of the \<open>custom_id\<close> values of the requests is the set of input keys,
  each occurring exactly once.
\<close>

theorem prepare_data_one_request_per_record:
  assumes "ocr_data self \<noteq> []" and "distinct (map fst (ocr_data self))"
  shows "length (prepare_data self) = length (ocr_data self)
       \<and> mset (map custom_id (prepare_data self)) = mset_set (set (map fst (ocr_data self)))"
proof -
  have "length (prepare_data self) = length (ocr_data self)"
    by (simp add: prepare_data_def)
  moreover have "mset (map custom_id (prepare_data self)) = mset_set (set (map fst (ocr_data self)))"
    using assms(2) by (simp only: custom_id_prepare_data mset_set_set)
  ultimately show ?thesis by simp
qed

theorem prepare_data_one_request_per_record_witness:
  "ocr_data sample_processor \<noteq> []
   \<and> distinct (map fst (ocr_data sample_processor))
   \<and> length (prepare_data sample_processor) = 2
   \<and> mset (map custom_id (prepare_data sample_processor)) = mset_set {''id1'', ''id2''}"
proof -
  have h1: "ocr_data sample_processor \<noteq> []" by (simp add: sample_processor_def)
  have h2: "distinct (map fst (ocr_data sample_processor))" by (simp add: sample_processor_def)
  have l: "length (ocr_data sample_processor) = 2" by (simp add: sample_processor_def)
  have k: "set (map fst (ocr_data sample_processor)) = {''id1'', ''id2''}"
    by (simp add: sample_processor_def)
  from prepare_data_one_request_per_record [OF h1 h2] h1 h2 show ?thesis
    by (simp only: l k simp_thms)
qed

text \<open>
  Claim C1, as stated, fails, in two ways. With the input mapping
  \<open>{"1": ..., "01": ...}\<close> the requests have the custom_ids \<open>"1"\<close> and \<open>"01"\<close> and the
  output file carries exactly these two ids; the reader takes both for the number 1,
  so the result has the single key 1, an integer: neither custom_id is a key of it and
  one record is lost. And with an output file that carries the two submitted ids, one
  of them on the line of a refused request, the call raises \<open>KeyError\<close>: there is no
  result mapping at all.
\<close>

theorem round_trip_fails:
  "map line_custom_id numeric_lines = map custom_id (prepare_data numeric_processor)
   \<and> map custom_id (prepare_data numeric_processor) = [''1'', ''01'']
   \<and> process_responses numeric_output digit_casts sample_loads ''file-3''
       = Inr [(IntKey 1, JObj [(''x'', JNum 2)])]
   \<and> map line_custom_id refused_lines = map custom_id (prepare_data sample_processor)
   \<and> process_responses refused_output digit_casts sample_loads ''file-5''
       = Inl (KeyError ''choices'')"
  by (simp add: numeric_output_run refused_output_run custom_id_prepare_data
        numeric_processor_def numeric_lines_def sample_processor_def refused_lines_def)

text \<open>
  Claim C1, amended. For every input mapping (a Python dict, so its keys are distinct)
  with at least one record id that \<open>float\<close> does not read as a number, and every
  downloaded output whose lines carry exactly the submitted custom_ids, each line with
  a message content that the parser accepts, \<open>process_responses\<close> returns a mapping;
  the \<open>custom_id\<close> of every request that \<open>prepare_data\<close> produced is a key of it,
  unchanged; its keys are exactly the input keys and it has one entry per input record,
  so no record is dropped between submission and result assembly.
\<close>

theorem custom_id_round_trip:
  fixes np :: "'f casts"
  assumes "distinct (map fst (ocr_data self))"
    and "q \<in> set (map fst (ocr_data self))" and "py_float np q = None"
    and "download fid = Inr lines"
    and "set (map line_custom_id lines) = set (map custom_id (prepare_data self))"
    and "\<And>r. r \<in> set lines \<Longrightarrow>
           \<exists>s v. message_content (response r) = Inr (JStr s) \<and> loads s = Inr v"
  shows "\<exists>result. process_responses download np loads fid = Inr result
       \<and> (\<forall>r \<in> set (prepare_data self). StrKey (custom_id r) \<in> set (map fst result))
       \<and> set (map fst result) = StrKey ` set (map fst (ocr_data self))
       \<and> length result = length (ocr_data self)"
proof -
  have ids: "set (map line_custom_id lines) = set (map fst (ocr_data self))"
    using assms(5) by (simp only: custom_id_prepare_data)
  with assms(2) have q: "q \<in> set (map line_custom_id lines)" by simp
  from process_responses_total [where download = download, OF assms(4) q assms(3) assms(6)]
  obtain result where r: "process_responses download np loads fid = Inr result"
    by blast
  have keys: "set (map fst result) = StrKey ` set (map fst (ocr_data self))"
    using process_responses_keys(1) [where download = download, OF assms(4) q assms(3) r]
    by (simp only: ids)
  have dist: "distinct (map fst result)"
    by (rule process_responses_keys(2) [where download = download, OF assms(4) q assms(3) r])
  let ?key = "StrKey :: string \<Rightarrow> 'f key"
  have inj: "inj_on ?key (set (map fst (ocr_data self)))"
    by (rule inj_onI) simp
  from dist have "length (map fst result) = card (set (map fst result))"
    by (simp only: distinct_card)
  also have "\<dots> = card (?key ` set (map fst (ocr_data self)))" by (simp only: keys)
  also have "\<dots> = card (set (map fst (ocr_data self)))" by (rule card_image [OF inj])
  also have "\<dots> = length (map fst (ocr_data self))"
    using assms(1) by (simp only: distinct_card)
  finally have len: "length result = length (ocr_data self)" by simp
  have "custom_id r \<in> set (map fst (ocr_data self))" if "r \<in> set (prepare_data self)" for r
    using that custom_id_prepare_data [of self] by (metis imageI set_map)
  then have "\<forall>r \<in> set (prepare_data self). StrKey (custom_id r) \<in> set (map fst result)"
    unfolding keys by blast
  with r keys len show ?thesis by blast
qed

theorem custom_id_round_trip_witness:
  \<open>distinct (map fst (ocr_data sample_processor))
   \<and> ''id1'' \<in> set (map fst (ocr_data sample_processor))
   \<and> py_float digit_casts ''id1'' = None
   \<and> set (map line_custom_id
        [\<lparr>line_custom_id = ''id2'', response = chat_response ''{"x":1}''\<rparr>,
         \<lparr>line_custom_id = ''id2'', response = chat_response ''{"x":2}''\<rparr>,
         \<lparr>line_custom_id = ''id1'', response = chat_response ''{x:1,}''\<rparr>])
       = set (map custom_id (prepare_data sample_processor))
   \<and> map custom_id (prepare_data sample_processor) = [''id1'', ''id2'']
   \<and> process_responses sample_output digit_casts sample_loads ''file-1''
       = Inr [(StrKey ''id2'', JObj [(''x'', JNum 2)]), (StrKey ''id1'', JObj [(''x'', JNum 1)])]
   \<and> (\<exists>result. process_responses sample_output digit_casts sample_loads ''file-1'' = Inr result
         \<and> set (map fst result) = StrKey ` set (map fst (ocr_data sample_processor))
         \<and> length result = length (ocr_data sample_processor))\<close>
proof -
  let ?lines = \<open>[\<lparr>line_custom_id = ''id2'', response = chat_response ''{"x":1}''\<rparr>,
         \<lparr>line_custom_id = ''id2'', response = chat_response ''{"x":2}''\<rparr>,
         \<lparr>line_custom_id = ''id1'', response = chat_response ''{x:1,}''\<rparr>]\<close>
  have h1: "distinct (map fst (ocr_data sample_processor))"
    by (simp add: sample_processor_def)
  have h2: "''id1'' \<in> set (map fst (ocr_data sample_processor))"
    by (simp add: sample_processor_def)
  have h3: "py_float digit_casts ''id1'' = None" by (rule digit_casts_float)
  have h4: "sample_output ''file-1'' = Inr ?lines" by (simp add: sample_output_def)
  have ids: "map custom_id (prepare_data sample_processor) = [''id1'', ''id2'']"
    by (simp add: custom_id_prepare_data sample_processor_def)
  have h5: "set (map line_custom_id ?lines) = set (map custom_id (prepare_data sample_processor))"
    by (simp add: ids insert_commute)
  note h6 = sample_output_lines [OF h4]
  from custom_id_round_trip
         [where self = sample_processor and download = sample_output and np = digit_casts
            and loads = sample_loads and fid = "''file-1''", OF h1 h2 h3 h4 h5 h6]
  have ex: "\<exists>result. process_responses sample_output digit_casts sample_loads ''file-1'' = Inr result
         \<and> set (map fst result) = StrKey ` set (map fst (ocr_data sample_processor))
         \<and> length result = length (ocr_data sample_processor)"
    by blast
  show ?thesis
    by (intro conjI) (rule h1, rule h2, rule h3, rule h5, rule ids, rule sample_output_run, rule ex)
qed

text \<open>
  Claim C10, as stated, fails, in two ways. With the lines \<open>"5"\<close>, \<open>"5"\<close> and
  \<open>"05"\<close> the last line with the custom_id \<open>"5"\<close> is the second, whose content parses
  to \<open>{"x": 2}\<close>; the reader takes all three ids for the number 5, and the result
  binds the integer 5 to the JSON of the third line. And with two lines of one id
  followed by the line of a refused request, the call raises \<open>KeyError\<close> and returns no
  mapping.
\<close>

theorem last_line_wins_fails:
  "map line_custom_id fives_lines = [''5'', ''5'', ''05'']
   \<and> message_content (response (fives_lines ! 1)) = Inr (JStr ''{\"x\":2}'')
   \<and> sample_loads ''{\"x\":2}'' = Inr (JObj [(''x'', JNum 2)])
   \<and> process_responses fives_output digit_casts sample_loads ''file-4''
       = Inr [(IntKey 5, JObj [(''x'', JNum 3)])]
   \<and> map line_custom_id refused_twice_lines = [''id2'', ''id2'', ''id1'']
   \<and> process_responses refused_twice_output digit_casts sample_loads ''file-6''
       = Inl (KeyError ''choices'')"
  by (simp add: fives_output_run refused_twice_output_run fives_lines_def
        refused_twice_lines_def sample_loads_values message_content_chat_response)

text \<open>
  Claim C10, amended. If the downloaded output file has several lines with the same
  custom_id, at least one custom_id of the file is not a number to \<open>float\<close>, and every
  line has a message content that the parser accepts, then \<open>process_responses\<close>
  returns a mapping, and in it that custom_id is bound to the parsed JSON of the last
  such line in file order (line \<open>i\<close>: no later line has the id). The earlier lines are
  overwritten without any report, and the key occurs once in the result.
\<close>

theorem process_responses_last_line_wins:
  assumes "download fid = Inr lines"
    and "q \<in> set (map line_custom_id lines)" and "py_float np q = None"
    and "\<And>r. r \<in> set lines \<Longrightarrow>
           \<exists>s v. message_content (response r) = Inr (JStr s) \<and> loads s = Inr v"
    and "i < length lines" and "line_custom_id (lines ! i) = k"
    and "\<And>j. i < j \<Longrightarrow> j < length lines \<Longrightarrow> line_custom_id (lines ! j) \<noteq> k"
  shows "\<exists>result s v. process_responses download np loads fid = Inr result
             \<and> message_content (response (lines ! i)) = Inr (JStr s) \<and> loads s = Inr v
             \<and> map_of result (StrKey k) = Some v
             \<and> length (filter (\<lambda>kv. fst kv = StrKey k) result) = 1"
proof -
  from process_responses_total [where download = download, OF assms(1-4)]
  obtain result where r: "process_responses download np loads fid = Inr result"
    by blast
  from last_line_wins_if_returned
         [where download = download, OF assms(1-3) r assms(5) assms(6) assms(7)] r
  show ?thesis by blast
qed

theorem process_responses_last_line_wins_witness:
  \<open>''id1'' \<in> set (map line_custom_id
        [\<lparr>line_custom_id = ''id2'', response = chat_response ''{"x":1}''\<rparr>,
         \<lparr>line_custom_id = ''id2'', response = chat_response ''{"x":2}''\<rparr>,
         \<lparr>line_custom_id = ''id1'', response = chat_response ''{x:1,}''\<rparr>])
   \<and> py_float digit_casts ''id1'' = None
   \<and> process_responses sample_output digit_casts sample_loads ''file-1''
       = Inr [(StrKey ''id2'', JObj [(''x'', JNum 2)]), (StrKey ''id1'', JObj [(''x'', JNum 1)])]
   \<and> (\<exists>result s v. process_responses sample_output digit_casts sample_loads ''file-1'' = Inr result
            \<and> message_content (chat_response ''{"x":2}'') = Inr (JStr s)
            \<and> sample_loads s = Inr v
            \<and> map_of result (StrKey ''id2'') = Some v
            \<and> length (filter (\<lambda>kv. fst kv = StrKey ''id2'') result) = 1)
   \<and> map_of [(StrKey ''id2'', JObj [(''x'', JNum 2)]), (StrKey ''id1'', JObj [(''x'', JNum 1)])]
        (StrKey ''id2'')
       = Some (JObj [(''x'', JNum 2)])\<close>
proof -
  let ?lines = \<open>[\<lparr>line_custom_id = ''id2'', response = chat_response ''{"x":1}''\<rparr>,
          \<lparr>line_custom_id = ''id2'', response = chat_response ''{"x":2}''\<rparr>,
          \<lparr>line_custom_id = ''id1'', response = chat_response ''{x:1,}''\<rparr>]\<close>
  have h1: "sample_output ''file-1'' = Inr ?lines" by (simp add: sample_output_def)
  have h2: "''id1'' \<in> set (map line_custom_id ?lines)" by simp
  have h3: "py_float digit_casts ''id1'' = None" by (rule digit_casts_float)
  note h4 = sample_output_lines [OF h1]
  have h5: "1 < length ?lines" by simp
  have h6: "line_custom_id (?lines ! 1) = ''id2''" by simp
  have h7: "line_custom_id (?lines ! j) \<noteq> ''id2''" if "1 < j" "j < length ?lines" for j
  proof -
    from that have "j = 2" by simp
    then show ?thesis by simp
  qed
  have nth: \<open>response (?lines ! 1) = chat_response ''{"x":2}''\<close> by simp
  have "\<exists>result s v. process_responses sample_output digit_casts sample_loads ''file-1'' = Inr result
            \<and> message_content (response (?lines ! 1)) = Inr (JStr s)
            \<and> sample_loads s = Inr v
            \<and> map_of result (StrKey ''id2'') = Some v
            \<and> length (filter (\<lambda>kv. fst kv = StrKey ''id2'') result) = 1"
    by (rule process_responses_last_line_wins
          [where download = sample_output and np = digit_casts and loads = sample_loads
             and fid = "''file-1''" and i = 1 and k = "''id2''", OF h1 h2 h3 h4 h5 h6 h7])
  then have ex: \<open>\<exists>result s v.
              process_responses sample_output digit_casts sample_loads ''file-1'' = Inr result
            \<and> message_content (chat_response ''{"x":2}'') = Inr (JStr s)
            \<and> sample_loads s = Inr v
            \<and> map_of result (StrKey ''id2'') = Some v
            \<and> length (filter (\<lambda>kv. fst kv = StrKey ''id2'') result) = 1\<close>
    by (simp only: nth)
  have m: "map_of [(StrKey ''id2'', JObj [(''x'', JNum 2)]),
                   (StrKey ''id1'', JObj [(''x'', JNum 1)])] (StrKey ''id2'')
       = Some (JObj [(''x'', JNum 2)])"
    by simp
  show ?thesis
    by (intro conjI) (rule h2, rule h3, rule sample_output_run, rule ex, rule m)
qed

text \<open>
  Claim C8. Given an output file of one line with custom_id \<open>"a"\<close> whose message
  content is the well-formed text \<open>{"x":1}\<close> and another line (with any custom_id
  \<open>c\<close>, before or after it) whose message content is the malformed text
  \<open>{x:1,}\<close>, and a tolerant parser that recovers the object \<open>{"x": 1}\<close> from both
  texts, \<open>process_responses\<close> does not fail: it returns a mapping in which \<open>"a"\<close>
  is bound to \<open>{"x": 1}\<close>, and the malformed line's id is bound to \<open>{"x": 1}\<close> too.
  The id \<open>"a"\<close> is no number, so the reader keeps the ids as they are, whatever the
  casts.
\<close>

theorem process_responses_tolerant_scenario:
  assumes \<open>loads ''{"x":1}'' = Inr (JObj [(''x'', JNum 1)])\<close>
    and \<open>loads ''{x:1,}'' = Inr (JObj [(''x'', JNum 1)])\<close>
    and \<open>download fid = Inr df\<close>
    and \<open>df = [\<lparr>line_custom_id = ''a'', response = chat_response ''{"x":1}''\<rparr>,
               \<lparr>line_custom_id = c, response = chat_response ''{x:1,}''\<rparr>]
       \<or> df = [\<lparr>line_custom_id = c, response = chat_response ''{x:1,}''\<rparr>,
               \<lparr>line_custom_id = ''a'', response = chat_response ''{"x":1}''\<rparr>]\<close>
  shows \<open>\<exists>result. process_responses download np loads fid = Inr result
           \<and> map_of result (StrKey ''a'') = Some (JObj [(''x'', JNum 1)])
           \<and> map_of result (StrKey c) = Some (JObj [(''x'', JNum 1)])\<close>
proof -
  from assms(4) have a: "''a'' \<in> set (map line_custom_id df)" by auto
  note eq = process_responses_texts [where download = download, OF assms(3) a py_float_a]
  from assms(4) show ?thesis
  proof
    assume \<open>df = [\<lparr>line_custom_id = ''a'', response = chat_response ''{"x":1}''\<rparr>,
               \<lparr>line_custom_id = c, response = chat_response ''{x:1,}''\<rparr>]\<close>
    then show ?thesis
      using assms(1,2)
      by (simp add: eq and_then_def message_content_chat_response
            repair_loads_def to_dict_def nan_key_def)
  next
    assume \<open>df = [\<lparr>line_custom_id = c, response = chat_response ''{x:1,}''\<rparr>,
               \<lparr>line_custom_id = ''a'', response = chat_response ''{"x":1}''\<rparr>]\<close>
    then show ?thesis
      using assms(1,2)
      by (simp add: eq and_then_def message_content_chat_response
            repair_loads_def to_dict_def nan_key_def)
  qed
qed

theorem process_responses_tolerant_scenario_witness:
  \<open>sample_loads ''{"x":1}'' = Inr (JObj [(''x'', JNum 1)])
   \<and> sample_loads ''{x:1,}'' = Inr (JObj [(''x'', JNum 1)])
   \<and> process_responses two_lines digit_casts sample_loads ''file-2''
       = Inr [(StrKey ''a'', JObj [(''x'', JNum 1)]), (StrKey ''b'', JObj [(''x'', JNum 1)])]
   \<and> (\<exists>result. process_responses two_lines digit_casts sample_loads ''file-2'' = Inr result
           \<and> map_of result (StrKey ''a'') = Some (JObj [(''x'', JNum 1)])
           \<and> map_of result (StrKey ''b'') = Some (JObj [(''x'', JNum 1)]))\<close>
proof -
  have h1: \<open>sample_loads ''{"x":1}'' = Inr (JObj [(''x'', JNum 1)])\<close>
    by (rule sample_loads_values)
  have h2: \<open>sample_loads ''{x:1,}'' = Inr (JObj [(''x'', JNum 1)])\<close>
    by (rule sample_loads_values)
  have h3: \<open>two_lines ''file-2'' =
     Inr [\<lparr>line_custom_id = ''a'', response = chat_response ''{"x":1}''\<rparr>,
          \<lparr>line_custom_id = ''b'', response = chat_response ''{x:1,}''\<rparr>]\<close>
    by (simp add: two_lines_def)
  have ex: \<open>\<exists>result. process_responses two_lines digit_casts sample_loads ''file-2'' = Inr result
           \<and> map_of result (StrKey ''a'') = Some (JObj [(''x'', JNum 1)])
           \<and> map_of result (StrKey ''b'') = Some (JObj [(''x'', JNum 1)])\<close>
    by (rule process_responses_tolerant_scenario
          [where loads = sample_loads and download = two_lines and np = digit_casts
             and fid = "''file-2''" and c = "''b''", OF h1 h2 h3])
       (rule disjI1, rule refl)
  show ?thesis
    by (intro conjI) (rule h1, rule h2, rule two_lines_run, rule ex)
qed

section \<open>Properties of completion polling\<close>


lemma body_raises: "wait_for_batch_completion_body (Inl e) = Inl e"
  by (simp add: wait_for_batch_completion_body_def and_then_def)

lemma body_terminal:
  "getitem bd ''status'' = Inr s \<Longrightarrow> s = JStr ''completed'' \<or> s = JStr ''failed'' \<Longrightarrow>
   wait_for_batch_completion_body (Inr bd) = Inr bd"
  by (auto simp: wait_for_batch_completion_body_def and_then_def)

lemma body_pending:
  "getitem bd ''status'' = Inr s \<Longrightarrow> s \<noteq> JStr ''completed'' \<Longrightarrow> s \<noteq> JStr ''failed'' \<Longrightarrow>
   wait_for_batch_completion_body (Inr bd) = Inl BatchNotReadyException"
  by (simp add: wait_for_batch_completion_body_def and_then_def)


lemma retrying_done:
  "\<not> retry_if_exception_type (wait_for_batch_completion_body (fst (g n))) \<Longrightarrow>
   retrying g n now = (wait_for_batch_completion_body (fst (g n)),
                       \<lparr>attempt_number = n, seconds_since_start = now + snd (g n)\<rparr>)"
  by (subst retrying.simps) (simp add: Let_def)

lemma retrying_stop:
  "retry_if_exception_type (wait_for_batch_completion_body (fst (g n))) \<Longrightarrow>
   stop_after_delay (now + snd (g n)) \<Longrightarrow>
   retrying g n now = (Inl RetryError,
                       \<lparr>attempt_number = n, seconds_since_start = now + snd (g n)\<rparr>)"
  by (subst retrying.simps) (simp add: Let_def)

lemma retrying_again:
  "retry_if_exception_type (wait_for_batch_completion_body (fst (g n))) \<Longrightarrow>
   \<not> stop_after_delay (now + snd (g n)) \<Longrightarrow>
   retrying g n now = retrying g (Suc n) (now + snd (g n) + wait_exponential n)"
  by (subst retrying.simps) (simp add: Let_def)

lemma retry_iff:
  "retry_if_exception_type outcome \<longleftrightarrow> outcome = Inl BatchNotReadyException"
  by (simp add: retry_if_exception_type_def split: sum.splits)



lemma retrying_never_ready:
  "(\<And>k. wait_for_batch_completion_body (fst (g k)) = Inl BatchNotReadyException) \<Longrightarrow>
   fst (retrying g n now) = Inl RetryError
   \<and> 86400 \<le> seconds_since_start (snd (retrying g n now))"
proof (induction g n now rule: retrying.induct)
  case (1 g n now)
  have retry: "retry_if_exception_type (wait_for_batch_completion_body (fst (g n)))"
    by (simp add: "1.prems" retry_iff)
  show ?case
  proof (cases "stop_after_delay (now + snd (g n))")
    case True
    with retry show ?thesis by (simp add: retrying_stop stop_after_delay_def)
  next
    case False
    from retry False "1.IH" [OF refl refl refl _ False] "1.prems"
    show ?thesis by (simp add: retrying_again)
  qed
qed

lemma never_ready_body:
  "wait_for_batch_completion_body (fst (never_ready k)) = Inl BatchNotReadyException"
  by (simp add: never_ready_def in_progress_def wait_for_batch_completion_body_def and_then_def)

lemma never_ready_again:
  "now < 86400 \<Longrightarrow>
   retrying never_ready n now = retrying never_ready (Suc n) (now + wait_exponential n)"
  using retrying_again [of never_ready n now]
  by (simp add: never_ready_body retry_iff stop_after_delay_def) (simp add: never_ready_def)

lemma never_ready_stop:
  "86400 \<le> now \<Longrightarrow>
   retrying never_ready n now =
     (Inl RetryError, \<lparr>attempt_number = n, seconds_since_start = now\<rparr>)"
  using retrying_stop [of never_ready n now]
  by (simp add: never_ready_body retry_iff stop_after_delay_def) (simp add: never_ready_def)

lemma never_ready_run:
  "wait_for_batch_completion never_ready =
     (Inl RetryError, \<lparr>attempt_number = 59, seconds_since_start = 86647\<rparr>)"
  by (simp add: wait_for_batch_completion_def never_ready_again never_ready_stop
        wait_exponential_def)


text \<open>
  Claim C2, as stated, fails. With a status query that reports \<open>in_progress\<close> at
  every attempt and takes no time, the loop sleeps 1, 2, 4, ..., 1024 and then 1800
  seconds between attempts; the 59th attempt ends 86647 seconds after the first began,
  and the call raises \<open>RetryError\<close>. No \<open>BatchTimeoutError\<close> is raised: the program has
  no such class.
\<close>

theorem timeout_is_not_batch_timeout_error:
  "fst (wait_for_batch_completion never_ready) = Inl RetryError
   \<and> fst (wait_for_batch_completion never_ready) \<noteq> Inl (OtherException ''BatchTimeoutError'')"
  by (simp add: never_ready_run)

text \<open>
  Claim C2, amended. If every status query reports a status other than \<open>completed\<close>
  and \<open>failed\<close>, then \<open>wait_for_batch_completion\<close> ends by raising \<open>RetryError\<close> to its
  caller, at least 86400 seconds after the first attempt began; and at any point of the
  loop, an attempt whose outcome comes 86400 seconds or more after the first attempt
  began raises \<open>RetryError\<close> at once, without a further attempt.
\<close>

theorem never_terminal_raises_retry_error:
  assumes "\<And>k. \<exists>bd s. fst (g k) = Inr bd \<and> getitem bd ''status'' = Inr s
                     \<and> s \<noteq> JStr ''completed'' \<and> s \<noteq> JStr ''failed''"
  shows "fst (wait_for_batch_completion g) = Inl RetryError
       \<and> 86400 \<le> seconds_since_start (snd (wait_for_batch_completion g))
       \<and> (86400 \<le> now + snd (g n) \<longrightarrow>
            retrying g n now =
              (Inl RetryError, \<lparr>attempt_number = n, seconds_since_start = now + snd (g n)\<rparr>))"
proof -
  have pending: "wait_for_batch_completion_body (fst (g k)) = Inl BatchNotReadyException" for k
    using assms [of k] by (auto simp: body_pending)
  have "fst (retrying g 1 0) = Inl RetryError
      \<and> 86400 \<le> seconds_since_start (snd (retrying g 1 0))"
    by (rule retrying_never_ready) (rule pending)
  moreover have "retrying g n now =
      (Inl RetryError, \<lparr>attempt_number = n, seconds_since_start = now + snd (g n)\<rparr>)"
    if "86400 \<le> now + snd (g n)"
    using that by (simp add: retrying_stop pending retry_iff stop_after_delay_def)
  ultimately show ?thesis by (simp add: wait_for_batch_completion_def)
qed

theorem never_terminal_raises_retry_error_witness:
  "(\<forall>k. \<exists>bd s. fst (never_ready k) = Inr bd \<and> getitem bd ''status'' = Inr s
                     \<and> s \<noteq> JStr ''completed'' \<and> s \<noteq> JStr ''failed'')
   \<and> fst (wait_for_batch_completion never_ready) = Inl RetryError
   \<and> 86400 \<le> seconds_since_start (snd (wait_for_batch_completion never_ready))
   \<and> 86400 \<le> 86400 + snd (never_ready 48)
   \<and> retrying never_ready 48 86400 =
        (Inl RetryError, \<lparr>attempt_number = 48, seconds_since_start = 86400\<rparr>)"
proof -
  have h: "\<exists>bd s. fst (never_ready k) = Inr bd \<and> getitem bd ''status'' = Inr s
                     \<and> s \<noteq> JStr ''completed'' \<and> s \<noteq> JStr ''failed''" for k
    by (simp add: never_ready_def in_progress_def)
  from never_terminal_raises_retry_error [of never_ready 86400 48, OF h] h
  show ?thesis by (simp add: never_ready_def)
qed





text \<open>
  Claim C5. Only a \<open>BatchNotReadyException\<close> makes the polling loop retry. Any other
  exception raised by the status query, or by the status check on what it returned, is
  raised to the caller as it is, at the attempt where it happened, with no further
  attempt; and whenever the loop goes on to a further attempt, the attempt before it
  raised \<open>BatchNotReadyException\<close>.
\<close>

theorem only_not_ready_retries:
  "(fst (g n) = Inl e \<and> e \<noteq> BatchNotReadyException \<longrightarrow>
      retrying g n now =
        (Inl e, \<lparr>attempt_number = n, seconds_since_start = now + snd (g n)\<rparr>))
   \<and> (wait_for_batch_completion_body (fst (g n)) = Inl e \<and> e \<noteq> BatchNotReadyException \<longrightarrow>
      retrying g n now =
        (Inl e, \<lparr>attempt_number = n, seconds_since_start = now + snd (g n)\<rparr>))
   \<and> (n < attempt_number (snd (retrying g n now)) \<longrightarrow>
      wait_for_batch_completion_body (fst (g n)) = Inl BatchNotReadyException)"
proof (intro conjI impI)
  assume "wait_for_batch_completion_body (fst (g n)) = Inl e \<and> e \<noteq> BatchNotReadyException"
  then show "retrying g n now =
        (Inl e, \<lparr>attempt_number = n, seconds_since_start = now + snd (g n)\<rparr>)"
    by (simp add: retrying_done retry_iff)
next
  assume "fst (g n) = Inl e \<and> e \<noteq> BatchNotReadyException"
  then have "wait_for_batch_completion_body (fst (g n)) = Inl e" "e \<noteq> BatchNotReadyException"
    by (simp_all add: body_raises)
  then show "retrying g n now =
        (Inl e, \<lparr>attempt_number = n, seconds_since_start = now + snd (g n)\<rparr>)"
    by (simp add: retrying_done retry_iff)
next
  assume more: "n < attempt_number (snd (retrying g n now))"
  show "wait_for_batch_completion_body (fst (g n)) = Inl BatchNotReadyException"
  proof (rule ccontr)
    assume "wait_for_batch_completion_body (fst (g n)) \<noteq> Inl BatchNotReadyException"
    then have "retrying g n now = (wait_for_batch_completion_body (fst (g n)),
                       \<lparr>attempt_number = n, seconds_since_start = now + snd (g n)\<rparr>)"
      by (simp add: retrying_done retry_iff)
    with more show False by simp
  qed
qed

lemma connection_lost_run:
  "retrying connection_lost 1 0 = retrying connection_lost 2 3"
proof -
  have 1: "wait_for_batch_completion_body (fst (connection_lost 1)) = Inl BatchNotReadyException"
    by (simp add: connection_lost_def in_progress_def wait_for_batch_completion_body_def and_then_def)
  have "retrying connection_lost 1 0 =
        retrying connection_lost (Suc 1) (0 + snd (connection_lost 1) + wait_exponential 1)"
  proof (rule retrying_again)
    show "retry_if_exception_type (wait_for_batch_completion_body (fst (connection_lost 1)))"
      by (simp only: 1 retry_iff)
    show "\<not> stop_after_delay (0 + snd (connection_lost 1))"
      by (simp add: stop_after_delay_def connection_lost_def)
  qed
  moreover have "Suc 1 = (2::nat)" by simp
  moreover have "0 + snd (connection_lost 1) + wait_exponential 1 = 3"
    by (simp add: connection_lost_def wait_exponential_def)
  ultimately show ?thesis by (simp only:)
qed

theorem only_not_ready_retries_witness:
  "fst (connection_lost 2) = Inl (OtherException ''ConnectionError'')
   \<and> OtherException ''ConnectionError'' \<noteq> BatchNotReadyException
   \<and> retrying connection_lost 2 3 =
       (Inl (OtherException ''ConnectionError''),
        \<lparr>attempt_number = 2, seconds_since_start = 6\<rparr>)
   \<and> wait_for_batch_completion connection_lost =
       (Inl (OtherException ''ConnectionError''),
        \<lparr>attempt_number = 2, seconds_since_start = 6\<rparr>)
   \<and> 1 < attempt_number (snd (retrying connection_lost 1 0))
   \<and> wait_for_batch_completion_body (fst (connection_lost 1)) = Inl BatchNotReadyException"
proof -
  have h: "fst (connection_lost 2) = Inl (OtherException ''ConnectionError'')
         \<and> OtherException ''ConnectionError'' \<noteq> BatchNotReadyException"
    by (simp add: connection_lost_def)
  have s: "3 + snd (connection_lost 2) = 6" by (simp add: connection_lost_def)
  from only_not_ready_retries [of connection_lost 2 "OtherException ''ConnectionError''" 3] h
  have r2: "retrying connection_lost 2 3 =
       (Inl (OtherException ''ConnectionError''),
        \<lparr>attempt_number = 2, seconds_since_start = 3 + snd (connection_lost 2)\<rparr>)"
    by blast
  then have r2': "retrying connection_lost 2 3 =
       (Inl (OtherException ''ConnectionError''),
        \<lparr>attempt_number = 2, seconds_since_start = 6\<rparr>)"
    by (simp only: s)
  then have r1: "retrying connection_lost 1 0 =
       (Inl (OtherException ''ConnectionError''),
        \<lparr>attempt_number = 2, seconds_since_start = 6\<rparr>)"
    by (simp only: connection_lost_run)
  then have more: "1 < attempt_number (snd (retrying connection_lost 1 0))" by simp
  from only_not_ready_retries [of connection_lost 1 e 0] more
  have "wait_for_batch_completion_body (fst (connection_lost 1)) = Inl BatchNotReadyException"
    by blast
  with h r2' r1 more show ?thesis by (simp add: wait_for_batch_completion_def)
qed

text \<open>
  Claim C9. When the status query of an attempt reports \<open>completed\<close> or \<open>failed\<close>,
  \<open>wait_for_batch_completion\<close> returns at that attempt, normally, the whole
  batch-details object the query gave, for \<open>failed\<close> as for \<open>completed\<close>: a failed
  batch raises nothing, and telling the two apart is left to the caller.
\<close>

theorem terminal_status_returns_details:
  assumes "fst (g n) = Inr bd" and "getitem bd ''status'' = Inr s"
    and "s = JStr ''completed'' \<or> s = JStr ''failed''"
  shows "retrying g n now =
           (Inr bd, \<lparr>attempt_number = n, seconds_since_start = now + snd (g n)\<rparr>)"
proof -
  have "wait_for_batch_completion_body (fst (g n)) = Inr bd"
    using assms by (simp only: body_terminal)
  then show ?thesis by (simp add: retrying_done retry_iff)
qed

theorem terminal_status_returns_details_witness:
  "fst (fails_second 2) = Inr failed_batch
   \<and> getitem failed_batch ''status'' = Inr (JStr ''failed'')
   \<and> retrying fails_second 2 3 =
       (Inr failed_batch, \<lparr>attempt_number = 2, seconds_since_start = 6\<rparr>)"
proof -
  have h1: "fst (fails_second 2) = Inr failed_batch" by (simp add: fails_second_def)
  have h2: "getitem failed_batch ''status'' = Inr (JStr ''failed'')"
    by (simp add: failed_batch_def)
  have h3: "JStr ''failed'' = JStr ''completed'' \<or> JStr ''failed'' = JStr ''failed''" by simp
  have s: "3 + snd (fails_second 2) = 6" by (simp add: fails_second_def)
  from terminal_status_returns_details [where g = fails_second and n = 2 and now = 3, OF h1 h2 h3] h1 h2 s
  show ?thesis by (simp only: simp_thms)
qed

section \<open>Properties of batch submission\<close>

text \<open>
  Claim C3, as stated, fails. When the batch-creation endpoint answers 400 with a JSON
  body, \<open>_create_batch\<close> raises nothing: it returns the decoded body as its normal
  result.
\<close>

theorem non_2xx_returns_normally:
  "create_batch_request rejecting_post sample_json_of sample_processor ''file-1''
     = Inr (JObj [(''error'', JStr ''bad'')])
   \<and> create_batch_request rejecting_post sample_json_of sample_processor ''file-1''
     \<noteq> Inl (OtherException ''SubmissionError'')"
  by (simp add: create_batch_request_def rejecting_post_def sample_json_of_def and_then_def)

text \<open>
  Claim C3, amended. When the batch-creation endpoint returns a non-2xx response,
  \<open>_create_batch\<close> raises no \<open>SubmissionError\<close>: its outcome is that of decoding the
  response body as JSON, so the decoded body is returned to the caller as a normal
  result, and the only exception is the one the decoding raises on a body that is not
  JSON.
\<close>

theorem create_batch_request_ignores_status:
  assumes "post ''https://api.openai.com/v1/batches''
             [(''Authorization'', bearer (api_key self)), (''Content-Type'', ''application/json'')]
             (JObj [(''input_file_id'', JStr input_file_id),
                    (''endpoint'', JStr ''/v1/chat/completions''),
                    (''completion_window'', JStr ''24h'')]) = Inr resp"
    and "status_code resp < 200 \<or> 300 \<le> status_code resp"
  shows "create_batch_request post json_of self input_file_id = json_of (response_text resp)"
  using assms(1) by (simp add: create_batch_request_def and_then_def)

theorem create_batch_request_ignores_status_witness:
  \<open>rejecting_post ''https://api.openai.com/v1/batches''
             [(''Authorization'', bearer (api_key sample_processor)),
              (''Content-Type'', ''application/json'')]
             (JObj [(''input_file_id'', JStr ''file-1''),
                    (''endpoint'', JStr ''/v1/chat/completions''),
                    (''completion_window'', JStr ''24h'')])
     = Inr \<lparr>status_code = 400, response_text = ''{"error":"bad"}''\<rparr>
   \<and> 300 \<le> status_code \<lparr>status_code = 400, response_text = ''{"error":"bad"}''\<rparr>
   \<and> create_batch_request rejecting_post sample_json_of sample_processor ''file-1''
       = sample_json_of ''{"error":"bad"}''
   \<and> sample_json_of ''{"error":"bad"}'' = Inr (JObj [(''error'', JStr ''bad'')])\<close>
proof -
  have h1: \<open>rejecting_post ''https://api.openai.com/v1/batches''
             [(''Authorization'', bearer (api_key sample_processor)),
              (''Content-Type'', ''application/json'')]
             (JObj [(''input_file_id'', JStr ''file-1''),
                    (''endpoint'', JStr ''/v1/chat/completions''),
                    (''completion_window'', JStr ''24h'')])
     = Inr \<lparr>status_code = 400, response_text = ''{"error":"bad"}''\<rparr>\<close>
    by (simp add: rejecting_post_def)
  have h2: \<open>status_code \<lparr>status_code = 400, response_text = ''{"error":"bad"}''\<rparr> < 200
        \<or> 300 \<le> status_code \<lparr>status_code = 400, response_text = ''{"error":"bad"}''\<rparr>\<close>
    by simp
  from create_batch_request_ignores_status
         [where post = rejecting_post and self = sample_processor and json_of = sample_json_of,
          OF h1 h2] h1
  show ?thesis by (simp add: sample_json_of_def)
qed

end
